theory Spec2Isabelle
  imports
    Main
    "HOL-Library.AList"
    "HOL-Library.Char_ord"
    "HOL-Library.List_Lexorder"
    "HOL-Library.Multiset"
begin

section \<open>The retry-loop guard of the tool scheduler (\<open>ToolExecutionValidator\<close>)\<close>

text \<open>
  The development embeds \<^verbatim>\<open>generateToolKey\<close> and the class
  \<^verbatim>\<open>ToolExecutionValidator\<close> of the TypeScript source. Tool parameters are
  JavaScript values; the part of them that \<^verbatim>\<open>JSON.stringify\<close> can see is
  modelled by the datatype \<open>json\<close>. Conventions:
  \<^item> numbers are the integer-valued ones of magnitude below \<open>10\<^sup>2\<^sup>1\<close> (\<open>int\<close>),
    which print in decimal;
  \<^item> strings are lists of code units below 256;
  \<^item> an object is the list of its own enumerable properties in property order, with
    pairwise distinct names; property lookup is own-property lookup (plain data whose
    names do not shadow anything inherited);
  \<^item> values carry no identity, no \<^verbatim>\<open>toJSON\<close> method and no cycle, and a stored
    record is a value: what a caller later does to an object it passed in or got back
    is outside the model.
\<close>

subsection \<open>JavaScript values and \<^verbatim>\<open>JSON.stringify\<close> with an array replacer\<close>

datatype json =
    JUndefined
  | JNull
  | JBool bool
  | JNum int
  | JStr string
  | JArr "json list"
  | JObj "(string \<times> json) list"

datatype error = TypeError

text \<open>Decimal rendering of an integer-valued number (\<^verbatim>\<open>Number::toString\<close>).\<close>

fun showNat :: "nat \<Rightarrow> string" where
  "showNat n =
     (if n < 10 then [''0123456789'' ! n]
      else showNat (n div 10) @ [''0123456789'' ! (n mod 10)])"

declare showNat.simps [simp del]

definition showInt :: "int \<Rightarrow> string" where
  "showInt i = (if i < 0 then CHR ''-'' # showNat (nat (- i)) else showNat (nat i))"

text \<open>
  \<^verbatim>\<open>Object.keys(params as object)\<close>: a \<^verbatim>\<open>TypeError\<close> on
  \<^verbatim>\<open>undefined\<close> and \<^verbatim>\<open>null\<close>; the index strings of a string or an array; nothing
  for a number or a boolean; the own property names of an object.
\<close>

fun objectKeys :: "json \<Rightarrow> error + string list" where
  "objectKeys JUndefined = Inl TypeError"
| "objectKeys JNull = Inl TypeError"
| "objectKeys (JBool b) = Inr []"
| "objectKeys (JNum n) = Inr []"
| "objectKeys (JStr s) = Inr (map showNat [0..<length s])"
| "objectKeys (JArr xs) = Inr (map showNat [0..<length xs])"
| "objectKeys (JObj kvs) = Inr (map fst kvs)"

text \<open>
  \<^verbatim>\<open>Array.prototype.sort()\<close> without a comparator orders strings by code units,
  a proper prefix first: the lexicographic order of \<open>string\<close>.
\<close>

definition sortKeys :: "string list \<Rightarrow> string list" where
  "sortKeys ks = sort ks"

text \<open>
  The property list that \<^verbatim>\<open>JSON.stringify\<close> builds from an array replacer: the
  strings of the array in order, each one once.
\<close>

fun propertyList :: "string list \<Rightarrow> string list \<Rightarrow> string list" where
  "propertyList acc [] = acc"
| "propertyList acc (k # ks) = propertyList (if k \<in> set acc then acc else acc @ [k]) ks"

definition dquote :: char where
  "dquote = CHR 0x22"

definition backslash :: char where
  "backslash = CHR 0x5C"

definition hexDigit :: "nat \<Rightarrow> char" where
  "hexDigit d = ''0123456789abcdef'' ! (d mod 16)"

definition quoteChar :: "char \<Rightarrow> string" where
  "quoteChar c =
     (if c = CHR 0x08 then [backslash, CHR ''b'']
      else if c = CHR 0x09 then [backslash, CHR ''t'']
      else if c = CHR 0x0A then [backslash, CHR ''n'']
      else if c = CHR 0x0C then [backslash, CHR ''f'']
      else if c = CHR 0x0D then [backslash, CHR ''r'']
      else if c = dquote then [backslash, dquote]
      else if c = backslash then [backslash, backslash]
      else if (of_char c :: nat) < 32
        then [backslash, CHR ''u'', CHR ''0'', CHR ''0'',
              hexDigit (of_char c div 16), hexDigit (of_char c mod 16)]
      else [c])"

definition quoteJSONString :: "string \<Rightarrow> string" where
  "quoteJSONString s = dquote # concat (map quoteChar s) @ [dquote]"

fun join :: "string \<Rightarrow> string list \<Rightarrow> string" where
  "join sep [] = []"
| "join sep [x] = x"
| "join sep (x # y # ys) = x @ sep @ join sep (y # ys)"

text \<open>
  \<^verbatim>\<open>SerializeJSONProperty\<close>, \<^verbatim>\<open>SerializeJSONObject\<close> and
  \<^verbatim>\<open>SerializeJSONArray\<close> for a property list \<open>K\<close> and no indentation. \<open>None\<close> is
  \<^verbatim>\<open>undefined\<close>. The same list \<open>K\<close> selects the members of every object, at every
  depth: for each name of \<open>K\<close> in turn, the member is written when the object has the
  property and its value serializes.
\<close>

function serializeJSONProperty :: "string list \<Rightarrow> json \<Rightarrow> string option"
  and serializeMembers :: "string list \<Rightarrow> string list \<Rightarrow> (string \<times> json) list \<Rightarrow> string list"
  and serializeElements :: "string list \<Rightarrow> json list \<Rightarrow> string list"
where
  "serializeJSONProperty K JUndefined = None"
| "serializeJSONProperty K JNull = Some ''null''"
| "serializeJSONProperty K (JBool b) = Some (if b then ''true'' else ''false'')"
| "serializeJSONProperty K (JNum n) = Some (showInt n)"
| "serializeJSONProperty K (JStr s) = Some (quoteJSONString s)"
| "serializeJSONProperty K (JArr xs) =
     Some (''['' @ join '','' (serializeElements K xs) @ '']'')"
| "serializeJSONProperty K (JObj kvs) =
     Some (''{'' @ join '','' (serializeMembers K K kvs) @ ''}'')"
| "serializeMembers K [] kvs = []"
| "serializeMembers K (p # ps) kvs =
     (case map_of kvs p of
        None \<Rightarrow> serializeMembers K ps kvs
      | Some v \<Rightarrow>
          (case serializeJSONProperty K v of
             None \<Rightarrow> serializeMembers K ps kvs
           | Some s \<Rightarrow> (quoteJSONString p @ '':'' @ s) # serializeMembers K ps kvs))"
| "serializeElements K [] = []"
| "serializeElements K (x # xs) =
     (case serializeJSONProperty K x of None \<Rightarrow> ''null'' | Some s \<Rightarrow> s)
       # serializeElements K xs"
  by pat_completeness auto

termination
proof -
  have sz: "map_of kvs p = Some v \<Longrightarrow> size v < size (JObj kvs)" for kvs p v
    by (induction kvs) (auto split: if_splits)
  show ?thesis
    apply (relation "inv_image (less_than <*lex*> less_than)
      (\<lambda>a. case a of
         Inl (K, v) \<Rightarrow> (2 * size v + 1, 0)
       | Inr (Inl (K, ps, kvs)) \<Rightarrow> (2 * size (JObj kvs), length ps)
       | Inr (Inr (K, xs)) \<Rightarrow> (2 * size (JArr xs), 0))")
             apply (intro wf_inv_image wf_lex_prod wf_less_than)
            apply simp_all
    apply (drule sz)
    apply simp
    done
qed

definition JSON_stringify :: "json \<Rightarrow> string list \<Rightarrow> string option" where
  "JSON_stringify v replacer = serializeJSONProperty (propertyList [] replacer) v"

subsection \<open>The fingerprint\<close>

text \<open>
  \<^verbatim>\<open>generateToolKey(toolName, params)\<close>: the template literal prints an
  \<^verbatim>\<open>undefined\<close> serialization as the word itself.
\<close>

definition generateToolKey :: "string \<Rightarrow> json \<Rightarrow> error + string" where
  "generateToolKey toolName params =
     (case objectKeys params of
        Inl e \<Rightarrow> Inl e
      | Inr ks \<Rightarrow>
          (let paramsString = JSON_stringify params (sortKeys ks)
           in Inr (toolName @ '':'' @
                   (case paramsString of None \<Rightarrow> ''undefined'' | Some s \<Rightarrow> s))))"

subsection \<open>Failure records and the validator's state\<close>

text \<open>
  Modelled from the spec: the interface \<^verbatim>\<open>ToolErrorInfo\<close> is imported from
  \<^verbatim>\<open>../tools/tools.js\<close>, which is not among the sources. The spec gives it a
  \<^verbatim>\<open>code\<close>, a free-form \<^verbatim>\<open>context\<close> mapping of strings to values and an ordered
  list \<^verbatim>\<open>requiredActions\<close>; the validator reads the context through
  \<^verbatim>\<open>context?.filePath\<close>, so the context may be absent (\<open>None\<close>).
\<close>

record ToolErrorInfo =
  code :: string
  "context" :: "(string \<times> json) list option"
  requiredActions :: "string list"

record FailureInfo =
  timestamp :: int
  errorInfo :: ToolErrorInfo
  requiredActions :: "string list"
  wasAddressed :: bool

record ValidationResult =
  allowed :: bool
  reason :: "string option"
  requiredActions :: "string list option"
  previousFailure :: "FailureInfo option"

text \<open>
  The class: \<^verbatim>\<open>recentFailures\<close> is a \<^verbatim>\<open>Map\<close>, kept as the list of its entries in
  insertion order (\<open>AList.update\<close> is \<^verbatim>\<open>set\<close>: an existing key keeps its place, a
  new one goes last; \<open>AList.delete\<close> is \<^verbatim>\<open>delete\<close>). Times are integer milliseconds.
\<close>

record ToolExecutionValidator =
  recentFailures :: "(string \<times> FailureInfo) list"
  failureTimeoutMs :: int
  maxFailureAge :: int

definition newValidator :: "int \<Rightarrow> int \<Rightarrow> ToolExecutionValidator" where
  "newValidator timeout maxAge =
     \<lparr>recentFailures = [], failureTimeoutMs = timeout, maxFailureAge = maxAge\<rparr>"

definition defaultValidator :: ToolExecutionValidator where
  "defaultValidator = newValidator 30000 300000"

text \<open>An entry of the trace handed to \<^verbatim>\<open>detectDiagnosticActions\<close>.\<close>

record ToolCall =
  name :: string
  params :: json
  success :: bool

record FailureStats =
  totalFailures :: nat
  activeFailures :: nat

subsection \<open>The operations of the validator\<close>

text \<open>
  Every \<^verbatim>\<open>Date.now()\<close> of the source is an argument of the model, in the order the
  calls are made. A method returns its result, or the error it throws, together with
  the state it leaves behind.
\<close>

definition cleanupOldFailures :: "ToolExecutionValidator \<Rightarrow> int \<Rightarrow> ToolExecutionValidator" where
  "cleanupOldFailures v now =
     v\<lparr>recentFailures :=
         filter (\<lambda>(key, failure). \<not> (now - timestamp failure > maxFailureAge v))
           (recentFailures v)\<rparr>"

text \<open>
  \<^verbatim>\<open>Math.round(timeSinceFailure / 1000)\<close>: the nearest integer, a half going up.
\<close>

definition roundSeconds :: "int \<Rightarrow> int" where
  "roundSeconds ms = (ms + 500) div 1000"

definition blockedReason :: "int \<Rightarrow> string" where
  "blockedReason timeSinceFailure =
     ''Previous identical tool call failed '' @ showInt (roundSeconds timeSinceFailure) @
     ''s ago and required actions have not been addressed.''"

definition allowedResult :: ValidationResult where
  "allowedResult =
     \<lparr>allowed = True, reason = None, requiredActions = None, previousFailure = None\<rparr>"

definition validateBeforeExecution ::
  "ToolExecutionValidator \<Rightarrow> int \<Rightarrow> int \<Rightarrow> string \<Rightarrow> json
    \<Rightarrow> (error + ValidationResult) \<times> ToolExecutionValidator" where
  "validateBeforeExecution v nowCleanup nowCheck toolName parameters =
     (let v' = cleanupOldFailures v nowCleanup in
      case generateToolKey toolName parameters of
        Inl e \<Rightarrow> (Inl e, v')
      | Inr key \<Rightarrow>
          (case map_of (recentFailures v') key of
             None \<Rightarrow> (Inr allowedResult, v')
           | Some recentFailure \<Rightarrow>
               (let timeSinceFailure = nowCheck - timestamp recentFailure in
                if timeSinceFailure < failureTimeoutMs v' \<and> \<not> wasAddressed recentFailure
                then (Inr \<lparr>allowed = False,
                           reason = Some (blockedReason timeSinceFailure),
                           requiredActions = Some (FailureInfo.requiredActions recentFailure),
                           previousFailure = Some recentFailure\<rparr>, v')
                else (Inr allowedResult, v'))))"

definition recordFailure ::
  "ToolExecutionValidator \<Rightarrow> int \<Rightarrow> string \<Rightarrow> json \<Rightarrow> ToolErrorInfo
    \<Rightarrow> (error + unit) \<times> ToolExecutionValidator" where
  "recordFailure v now toolName parameters info =
     (case generateToolKey toolName parameters of
        Inl e \<Rightarrow> (Inl e, v)
      | Inr key \<Rightarrow>
          (let failureInfo =
                 \<lparr>timestamp = now,
                  errorInfo = info,
                  requiredActions = ToolErrorInfo.requiredActions info,
                  wasAddressed = False\<rparr>
           in (Inr (), v\<lparr>recentFailures := AList.update key failureInfo (recentFailures v)\<rparr>)))"

definition recordSuccess ::
  "ToolExecutionValidator \<Rightarrow> string \<Rightarrow> json \<Rightarrow> (error + unit) \<times> ToolExecutionValidator" where
  "recordSuccess v toolName parameters =
     (case generateToolKey toolName parameters of
        Inl e \<Rightarrow> (Inl e, v)
      | Inr key \<Rightarrow> (Inr (), v\<lparr>recentFailures := AList.delete key (recentFailures v)\<rparr>))"

definition markFailureAddressed ::
  "ToolExecutionValidator \<Rightarrow> string \<Rightarrow> json \<Rightarrow> (error + unit) \<times> ToolExecutionValidator" where
  "markFailureAddressed v toolName parameters =
     (case generateToolKey toolName parameters of
        Inl e \<Rightarrow> (Inl e, v)
      | Inr key \<Rightarrow>
          (case map_of (recentFailures v) key of
             None \<Rightarrow> (Inr (), v)
           | Some failure \<Rightarrow>
               (Inr (), v\<lparr>recentFailures :=
                            AList.update key (failure\<lparr>wasAddressed := True\<rparr>)
                              (recentFailures v)\<rparr>)))"

text \<open>
  Reading a property that no prototype supplies (\<^verbatim>\<open>file_path\<close>, \<^verbatim>\<open>filePath\<close>):
  an object answers with its own property, every other value with \<^verbatim>\<open>undefined\<close>.
  Under \<^verbatim>\<open>?.\<close> the same holds for \<^verbatim>\<open>null\<close> and \<^verbatim>\<open>undefined\<close>.
\<close>

fun getProperty :: "json \<Rightarrow> string \<Rightarrow> json" where
  "getProperty (JObj kvs) p = (case map_of kvs p of None \<Rightarrow> JUndefined | Some x \<Rightarrow> x)"
| "getProperty x p = JUndefined"

fun truthy :: "json \<Rightarrow> bool" where
  "truthy JUndefined = False"
| "truthy JNull = False"
| "truthy (JBool b) = b"
| "truthy (JNum n) = (n \<noteq> 0)"
| "truthy (JStr s) = (s \<noteq> [])"
| "truthy (JArr xs) = True"
| "truthy (JObj kvs) = True"

text \<open>
  \<^verbatim>\<open>===\<close>: primitives compare by value; an array or an object is identical only to
  itself, and the values of a trace and of a stored context are separate allocations.
\<close>

fun strictEquals :: "json \<Rightarrow> json \<Rightarrow> bool" where
  "strictEquals JUndefined JUndefined = True"
| "strictEquals JNull JNull = True"
| "strictEquals (JBool a) (JBool b) = (a = b)"
| "strictEquals (JNum a) (JNum b) = (a = b)"
| "strictEquals (JStr a) (JStr b) = (a = b)"
| "strictEquals x y = False"

definition startsWith :: "string \<Rightarrow> string \<Rightarrow> bool" where
  "startsWith s p = (take (length p) s = p)"

definition contextFilePath :: "FailureInfo \<Rightarrow> json" where
  "contextFilePath failure =
     (case context (errorInfo failure) of
        None \<Rightarrow> JUndefined
      | Some kvs \<Rightarrow> getProperty (JObj kvs) ''filePath'')"

definition relatedFailure :: "json \<Rightarrow> string \<Rightarrow> FailureInfo \<Rightarrow> bool" where
  "relatedFailure filePath key failure =
     (startsWith key ''replace:'' \<and>
      strictEquals (contextFilePath failure) filePath \<and>
      (code (errorInfo failure) = ''EDIT_TEXT_NOT_FOUND'' \<or>
       code (errorInfo failure) = ''EDIT_MULTIPLE_MATCHES''))"

definition markRelatedFailuresAddressed ::
  "ToolExecutionValidator \<Rightarrow> ToolCall \<Rightarrow> ToolExecutionValidator" where
  "markRelatedFailuresAddressed v diagnosticCall =
     (if name diagnosticCall = ''read_file'' then
        (let filePath = getProperty (params diagnosticCall) ''file_path'' in
         if truthy filePath then
           v\<lparr>recentFailures :=
               map (\<lambda>(key, failure).
                      if relatedFailure filePath key failure
                      then (key, failure\<lparr>wasAddressed := True\<rparr>)
                      else (key, failure))
                 (recentFailures v)\<rparr>
         else v)
      else v)"

definition diagnosticTools :: "string list" where
  "diagnosticTools = [''read_file'', ''list_directory'', ''grep'', ''glob'']"

fun detectDiagnosticActions ::
  "ToolExecutionValidator \<Rightarrow> ToolCall list \<Rightarrow> ToolExecutionValidator" where
  "detectDiagnosticActions v [] = v"
| "detectDiagnosticActions v (call # recentToolCalls) =
     detectDiagnosticActions
       (if name call \<in> set diagnosticTools \<and> success call
        then markRelatedFailuresAddressed v call else v)
       recentToolCalls"

text \<open>
  \<^verbatim>\<open>getFailureStats\<close>: the filter reads the clock once for each record it tests;
  \<open>nowFilter i\<close> is the reading at the record in position \<open>i\<close>.
\<close>

definition getFailureStats ::
  "ToolExecutionValidator \<Rightarrow> int \<Rightarrow> (nat \<Rightarrow> int) \<Rightarrow> FailureStats \<times> ToolExecutionValidator" where
  "getFailureStats v nowCleanup nowFilter =
     (let v' = cleanupOldFailures v nowCleanup;
          values = map snd (recentFailures v');
          active = filter (\<lambda>(i, f). \<not> wasAddressed f \<and>
                                    nowFilter i - timestamp f < failureTimeoutMs v')
                     (enumerate 0 values)
      in (\<lparr>totalFailures = length (recentFailures v'), activeFailures = length active\<rparr>, v'))"

definition clearAll :: "ToolExecutionValidator \<Rightarrow> ToolExecutionValidator" where
  "clearAll v = v\<lparr>recentFailures := []\<rparr>"

subsection \<open>Parameter structures that differ only in the order of properties\<close>

text \<open>
  \<open>sameProperties p q\<close>: \<open>p\<close> and \<open>q\<close> hold the same key/value pairs at every
  depth; objects may list their properties in different orders, arrays keep theirs.
\<close>

inductive sameProperties :: "json \<Rightarrow> json \<Rightarrow> bool" where
  same_value: "sameProperties x x"
| same_array: "list_all2 sameProperties xs ys \<Longrightarrow> sameProperties (JArr xs) (JArr ys)"
| same_object:
    "distinct (map fst kvs) \<Longrightarrow> distinct (map fst kvs') \<Longrightarrow>
     set (map fst kvs) = set (map fst kvs') \<Longrightarrow>
     (\<forall>k \<in> set (map fst kvs). \<exists>x y. map_of kvs k = Some x \<and> map_of kvs' k = Some y \<and>
        sameProperties x y) \<Longrightarrow>
     sameProperties (JObj kvs) (JObj kvs')"

text \<open>
  The condition under which \<^verbatim>\<open>detectDiagnosticActions\<close>, through
  \<^verbatim>\<open>markRelatedFailuresAddressed\<close>, marks the record \<open>failure\<close> stored under \<open>key\<close>
  because of the trace entry \<open>call\<close>: the tests of the two methods taken together
  (\<^verbatim>\<open>read_file\<close> is one of the diagnostic tools).
\<close>

definition addressedBy :: "ToolCall \<Rightarrow> string \<Rightarrow> FailureInfo \<Rightarrow> bool" where
  "addressedBy call key failure =
     (name call = ''read_file'' \<and> success call \<and>
      truthy (getProperty (params call) ''file_path'') \<and>
      relatedFailure (getProperty (params call) ''file_path'') key failure)"

subsection \<open>The scenarios of the specification's testable properties\<close>

text \<open>
  A failed \<^verbatim>\<open>replace\<close> on a file, with the error's code and the file as given; a
  successful \<^verbatim>\<open>read_file\<close>; a validator with one recorded failure, and one with two.
  \<open>fileKey path\<close> is the fingerprint of \<^verbatim>\<open>("replace", {file: path})\<close>.
\<close>

definition fileParams :: "string \<Rightarrow> json" where
  "fileParams path = JObj [(''file'', JStr path)]"

definition fileError :: "string \<Rightarrow> string \<Rightarrow> ToolErrorInfo" where
  "fileError c path =
     \<lparr>code = c, context = Some [(''filePath'', JStr path)],
      requiredActions = [''read file first'']\<rparr>"

definition readFileCall :: "string \<Rightarrow> ToolCall" where
  "readFileCall path =
     \<lparr>name = ''read_file'', params = JObj [(''file_path'', JStr path)], success = True\<rparr>"

definition oneFailure :: ToolExecutionValidator where
  "oneFailure =
     snd (recordFailure defaultValidator 1000 ''replace'' (fileParams ''x'')
            (fileError ''not_found'' ''x''))"

definition twoFailures :: "string \<Rightarrow> ToolExecutionValidator" where
  "twoFailures c =
     snd (recordFailure
            (snd (recordFailure defaultValidator 1000 ''replace'' (fileParams ''a.txt'')
                    (fileError c ''a.txt'')))
            1000 ''replace'' (fileParams ''b.txt'') (fileError c ''b.txt''))"

definition fileKey :: "string \<Rightarrow> string" where
  "fileKey path =
     ''replace:{'' @ [dquote] @ ''file'' @ [dquote] @ '':'' @ [dquote] @ path @ [dquote] @ ''}''"

section \<open>Properties\<close>

subsection \<open>The fingerprint\<close>

lemma serializeElements_cong:
  "list_all2 (\<lambda>x y. serializeJSONProperty K x = serializeJSONProperty K y) xs ys \<Longrightarrow>
   serializeElements K xs = serializeElements K ys"
  by (induction xs ys rule: list_all2_induct) simp_all

lemma serializeMembers_cong:
  assumes "\<And>p. p \<in> set ps \<Longrightarrow>
     map_option (serializeJSONProperty K) (map_of kvs p) =
     map_option (serializeJSONProperty K) (map_of kvs' p)"
  shows "serializeMembers K ps kvs = serializeMembers K ps kvs'"
  using assms
proof (induction ps)
  case Nil
  show ?case by simp
next
  case (Cons p ps)
  have tl: "serializeMembers K ps kvs = serializeMembers K ps kvs'"
    using Cons by simp
  have hd: "map_option (serializeJSONProperty K) (map_of kvs p) =
            map_option (serializeJSONProperty K) (map_of kvs' p)"
    using Cons.prems by simp
  show ?case
    using hd by (cases "map_of kvs p"; cases "map_of kvs' p") (simp_all add: tl split: option.split)
qed

lemma sameProperties_serialize:
  "sameProperties x y \<Longrightarrow> serializeJSONProperty K x = serializeJSONProperty K y"
proof (induction rule: sameProperties.induct)
  case (same_value x)
  show ?case by simp
next
  case (same_array xs ys)
  then have "list_all2 (\<lambda>x y. serializeJSONProperty K x = serializeJSONProperty K y) xs ys"
    by (simp add: list_all2_conv_all_nth)
  then have "serializeElements K xs = serializeElements K ys"
    by (rule serializeElements_cong)
  then show ?case by simp
next
  case (same_object kvs kvs')
  have "map_option (serializeJSONProperty K) (map_of kvs p) =
        map_option (serializeJSONProperty K) (map_of kvs' p)" for p
  proof (cases "p \<in> set (map fst kvs)")
    case True
    with same_object.IH obtain a b where
      "map_of kvs p = Some a" "map_of kvs' p = Some b"
      "serializeJSONProperty K a = serializeJSONProperty K b"
      by blast
    then show ?thesis by simp
  next
    case False
    then have "map_of kvs p = None"
      by (simp add: map_of_eq_None_iff)
    moreover from False same_object.hyps have "map_of kvs' p = None"
      by (simp add: map_of_eq_None_iff)
    ultimately show ?thesis by simp
  qed
  then have "serializeMembers K K kvs = serializeMembers K K kvs'"
    by (intro serializeMembers_cong)
  then show ?case by simp
qed

lemma sameProperties_keys:
  "sameProperties x y \<Longrightarrow>
   map_sum id sortKeys (objectKeys x) = map_sum id sortKeys (objectKeys y)"
proof (induction rule: sameProperties.cases)
  case (same_value x)
  then show ?case by simp
next
  case (same_array xs ys)
  then have "length xs = length ys"
    by (auto dest: list_all2_lengthD)
  with same_array show ?case by simp
next
  case (same_object kvs kvs')
  then have m: "mset (map fst kvs) = mset (map fst kvs')"
    using set_eq_iff_mset_eq_distinct [of "map fst kvs" "map fst kvs'"] by blast
  have "sort (map fst kvs) = sort (map fst kvs')"
    by (rule properties_for_sort) (use m in simp_all)
  with same_object show ?case by (simp add: sortKeys_def)
qed

lemma sameProperties_generateToolKey:
  assumes "sameProperties x y"
  shows "generateToolKey toolName x = generateToolKey toolName y"
proof -
  have k: "map_sum id sortKeys (objectKeys x) = map_sum id sortKeys (objectKeys y)"
    using assms by (rule sameProperties_keys)
  have s: "serializeJSONProperty K x = serializeJSONProperty K y" for K
    using assms by (rule sameProperties_serialize)
  show ?thesis
    using k by (cases "objectKeys x"; cases "objectKeys y")
      (simp_all add: generateToolKey_def JSON_stringify_def s)
qed

lemmas key_eval = generateToolKey_def JSON_stringify_def sortKeys_def showInt_def
  showNat.simps quoteJSONString_def quoteChar_def dquote_def backslash_def

lemma generateToolKey_total:
  "parameters \<noteq> JUndefined \<Longrightarrow> parameters \<noteq> JNull \<Longrightarrow>
   \<exists>key. generateToolKey toolName parameters = Inr key"
  by (cases parameters) (simp_all add: generateToolKey_def)

lemma generateToolKey_scoped:
  "generateToolKey t1 parameters = Inr k1 \<Longrightarrow> generateToolKey t2 parameters = Inr k2 \<Longrightarrow>
   t1 \<noteq> t2 \<Longrightarrow> k1 \<noteq> k2"
  by (auto simp: generateToolKey_def Let_def split: sum.splits)

subsection \<open>The operations, one by one\<close>

lemma cleanup_simps:
  "recentFailures (cleanupOldFailures v now) =
     filter (\<lambda>(key, failure). \<not> (now - timestamp failure > maxFailureAge v)) (recentFailures v)"
  "failureTimeoutMs (cleanupOldFailures v now) = failureTimeoutMs v"
  "maxFailureAge (cleanupOldFailures v now) = maxFailureAge v"
  by (simp_all add: cleanupOldFailures_def)

lemma validate_state:
  "snd (validateBeforeExecution v nowCleanup nowCheck toolName parameters) =
     cleanupOldFailures v nowCleanup"
  by (simp add: validateBeforeExecution_def Let_def split: sum.split option.split)

lemma validate_result:
  assumes "generateToolKey toolName parameters = Inr key"
  shows "fst (validateBeforeExecution v nowCleanup nowCheck toolName parameters) =
     (case map_of (recentFailures (cleanupOldFailures v nowCleanup)) key of
        None \<Rightarrow> Inr allowedResult
      | Some f \<Rightarrow>
          if nowCheck - timestamp f < failureTimeoutMs v \<and> \<not> wasAddressed f
          then Inr \<lparr>allowed = False,
                    reason = Some (blockedReason (nowCheck - timestamp f)),
                    requiredActions = Some (FailureInfo.requiredActions f),
                    previousFailure = Some f\<rparr>
          else Inr allowedResult)"
  using assms
  by (simp add: validateBeforeExecution_def Let_def cleanup_simps split: option.split)

lemma map_of_cleanup_addressed:
  assumes "distinct (map fst xs)" and "map_of (filter P xs) k = Some g"
  shows "map_of xs k = Some g"
proof -
  from assms(2) have "(k, g) \<in> set (filter P xs)" by (rule map_of_SomeD)
  then have "(k, g) \<in> set xs" by simp
  with assms(1) show ?thesis by simp
qed

lemma getFailureStats_state:
  "snd (getFailureStats v nowCleanup nowFilter) = cleanupOldFailures v nowCleanup"
  by (simp add: getFailureStats_def Let_def)

lemma getFailureStats_total:
  "totalFailures (fst (getFailureStats v nowCleanup nowFilter)) =
     length (recentFailures (cleanupOldFailures v nowCleanup))"
  by (simp add: getFailureStats_def Let_def)

lemma detect_keys:
  "map fst (recentFailures (detectDiagnosticActions v calls)) = map fst (recentFailures v)"
proof (induction calls arbitrary: v)
  case Nil
  show ?case by simp
next
  case (Cons call calls)
  have "map fst (recentFailures (markRelatedFailuresAddressed v call)) =
        map fst (recentFailures v)"
    by (auto simp: markRelatedFailuresAddressed_def Let_def)
  with Cons show ?case by simp
qed

text \<open>
  The keys of a \<^verbatim>\<open>Map\<close> are pairwise distinct: the store of a new validator has
  the property and every method keeps it.
\<close>

lemma store_keys_distinct:
  "distinct (map fst (recentFailures (newValidator timeout maxAge)))"
  "distinct (map fst (recentFailures v)) \<Longrightarrow>
     distinct (map fst (recentFailures (cleanupOldFailures v now)))"
  "distinct (map fst (recentFailures v)) \<Longrightarrow>
     distinct (map fst (recentFailures
       (snd (validateBeforeExecution v nowCleanup nowCheck toolName parameters))))"
  "distinct (map fst (recentFailures v)) \<Longrightarrow>
     distinct (map fst (recentFailures (snd (recordFailure v now toolName parameters info))))"
  "distinct (map fst (recentFailures v)) \<Longrightarrow>
     distinct (map fst (recentFailures (snd (recordSuccess v toolName parameters))))"
  "distinct (map fst (recentFailures v)) \<Longrightarrow>
     distinct (map fst (recentFailures (snd (markFailureAddressed v toolName parameters))))"
  "distinct (map fst (recentFailures v)) \<Longrightarrow>
     distinct (map fst (recentFailures (detectDiagnosticActions v calls)))"
  "distinct (map fst (recentFailures v)) \<Longrightarrow>
     distinct (map fst (recentFailures (snd (getFailureStats v nowCleanup nowFilter))))"
  "distinct (map fst (recentFailures (clearAll v)))"
proof -
  show "distinct (map fst (recentFailures (newValidator timeout maxAge)))"
    by (simp add: newValidator_def)
  show "distinct (map fst (recentFailures (clearAll v)))"
    by (simp add: clearAll_def)
  assume d: "distinct (map fst (recentFailures v))"
  then show c: "distinct (map fst (recentFailures (cleanupOldFailures v t)))" for t
    by (simp add: cleanup_simps distinct_map_filter)
  show "distinct (map fst (recentFailures
       (snd (validateBeforeExecution v nowCleanup nowCheck toolName parameters))))"
    by (simp only: validate_state c)
  show "distinct (map fst (recentFailures (snd (getFailureStats v nowCleanup nowFilter))))"
    by (simp only: getFailureStats_state c)
  show "distinct (map fst (recentFailures (snd (recordFailure v now toolName parameters info))))"
    using d by (simp add: recordFailure_def distinct_update split: sum.split)
  show "distinct (map fst (recentFailures (snd (recordSuccess v toolName parameters))))"
    using d by (simp add: recordSuccess_def distinct_delete split: sum.split)
  show "distinct (map fst (recentFailures (snd (markFailureAddressed v toolName parameters))))"
    using d by (simp add: markFailureAddressed_def distinct_update split: sum.split option.split)
  show "distinct (map fst (recentFailures (detectDiagnosticActions v calls)))"
    using d by (simp add: detect_keys)
qed

lemma markRelated_store:
  "recentFailures (markRelatedFailuresAddressed v call) =
     map (\<lambda>(key, f).
            if name call = ''read_file'' \<and> truthy (getProperty (params call) ''file_path'') \<and>
               relatedFailure (getProperty (params call) ''file_path'') key f
            then (key, f\<lparr>wasAddressed := True\<rparr>) else (key, f))
       (recentFailures v)"
proof -
  have "map (\<lambda>(key, f). (key, f)) (recentFailures v) = recentFailures v"
    by (induction "recentFailures v") auto
  moreover have "map (\<lambda>(key, f). if False then (key, f\<lparr>wasAddressed := True\<rparr>) else (key, f))
      (recentFailures v) = recentFailures v"
    by simp
  ultimately show ?thesis
    by (auto simp: markRelatedFailuresAddressed_def Let_def)
qed

lemma markRelated_config:
  "failureTimeoutMs (markRelatedFailuresAddressed v call) = failureTimeoutMs v"
  "maxFailureAge (markRelatedFailuresAddressed v call) = maxFailureAge v"
  by (simp_all add: markRelatedFailuresAddressed_def Let_def)

lemma relatedFailure_addressed:
  "relatedFailure p key (f\<lparr>wasAddressed := True\<rparr>) = relatedFailure p key f"
  by (simp add: relatedFailure_def contextFilePath_def)

lemma detect_config:
  "failureTimeoutMs (detectDiagnosticActions v calls) = failureTimeoutMs v \<and>
   maxFailureAge (detectDiagnosticActions v calls) = maxFailureAge v"
  by (induction calls arbitrary: v) (simp_all add: markRelated_config)

lemma detect_store:
  "recentFailures (detectDiagnosticActions v calls) =
     map (\<lambda>(key, f).
            if \<exists>call \<in> set calls. addressedBy call key f
            then (key, f\<lparr>wasAddressed := True\<rparr>) else (key, f))
       (recentFailures v)"
proof (induction calls arbitrary: v)
  case Nil
  show ?case by (induction "recentFailures v") auto
next
  case (Cons call calls)
  let ?step = "\<lambda>(key, f). if addressedBy call key f
                 then (key, f\<lparr>wasAddressed := True\<rparr>) else (key, f)"
  let ?v = "if name call \<in> set diagnosticTools \<and> success call
            then markRelatedFailuresAddressed v call else v"
  have step: "recentFailures ?v = map ?step (recentFailures v)"
    by (auto simp: markRelated_store addressedBy_def diagnosticTools_def)
  show ?case
    by (simp only: detectDiagnosticActions.simps Cons.IH step)
       (auto simp: addressedBy_def relatedFailure_addressed)
qed

lemma fileKey_x: "generateToolKey ''replace'' (fileParams ''x'') = Inr (fileKey ''x'')"
  by (simp add: key_eval fileParams_def fileKey_def)

lemma fileKey_a: "generateToolKey ''replace'' (fileParams ''a.txt'') = Inr (fileKey ''a.txt'')"
  by (simp add: key_eval fileParams_def fileKey_def)

lemma fileKey_b: "generateToolKey ''replace'' (fileParams ''b.txt'') = Inr (fileKey ''b.txt'')"
  by (simp add: key_eval fileParams_def fileKey_def)

lemma oneFailure_eq:
  "oneFailure =
     \<lparr>recentFailures =
        [(fileKey ''x'',
          \<lparr>timestamp = 1000, errorInfo = fileError ''not_found'' ''x'',
           requiredActions = [''read file first''], wasAddressed = False\<rparr>)],
      failureTimeoutMs = 30000, maxFailureAge = 300000\<rparr>"
  by (simp add: oneFailure_def recordFailure_def fileKey_x defaultValidator_def
      newValidator_def fileError_def)

lemma twoFailures_eq:
  "twoFailures c =
     \<lparr>recentFailures =
        [(fileKey ''a.txt'',
          \<lparr>timestamp = 1000, errorInfo = fileError c ''a.txt'',
           requiredActions = [''read file first''], wasAddressed = False\<rparr>),
         (fileKey ''b.txt'',
          \<lparr>timestamp = 1000, errorInfo = fileError c ''b.txt'',
           requiredActions = [''read file first''], wasAddressed = False\<rparr>)],
      failureTimeoutMs = 30000, maxFailureAge = 300000\<rparr>"
  by (simp add: twoFailures_def recordFailure_def fileKey_a fileKey_b defaultValidator_def
      newValidator_def fileError_def fileKey_def dquote_def)

subsection \<open>Validation and addressal for parameters that have a fingerprint\<close>

text \<open>
  Whatever the parameters, \<^verbatim>\<open>validateBeforeExecution\<close> blocks exactly when the
  fingerprint exists and has, after the cleanup, an unaddressed record younger than
  \<^verbatim>\<open>failureTimeoutMs\<close>. When the fingerprint exists, the blocked result carries the
  reason with the elapsed seconds, the stored \<^verbatim>\<open>requiredActions\<close> and the stored
  record, and in every other case the result is \<^verbatim>\<open>allowed = true\<close> and nothing else.
\<close>

lemma validate_blocks_exactly_recent_unaddressed:
  "((\<exists>res. fst (validateBeforeExecution v nowCleanup nowCheck toolName parameters) = Inr res \<and>
          \<not> allowed res) \<longleftrightarrow>
    (\<exists>key f. generateToolKey toolName parameters = Inr key \<and>
         map_of (recentFailures (cleanupOldFailures v nowCleanup)) key = Some f \<and>
         \<not> wasAddressed f \<and> nowCheck - timestamp f < failureTimeoutMs v)) \<and>
   (\<forall>key f. generateToolKey toolName parameters = Inr key \<and>
        map_of (recentFailures (cleanupOldFailures v nowCleanup)) key = Some f \<and>
        \<not> wasAddressed f \<and> nowCheck - timestamp f < failureTimeoutMs v \<longrightarrow>
        fst (validateBeforeExecution v nowCleanup nowCheck toolName parameters) =
          Inr \<lparr>allowed = False,
               reason = Some (''Previous identical tool call failed '' @
                              showInt ((nowCheck - timestamp f + 500) div 1000) @
                              ''s ago and required actions have not been addressed.''),
               requiredActions = Some (FailureInfo.requiredActions f),
               previousFailure = Some f\<rparr>) \<and>
   (\<forall>key. generateToolKey toolName parameters = Inr key \<and>
        \<not> (\<exists>f. map_of (recentFailures (cleanupOldFailures v nowCleanup)) key = Some f \<and>
               \<not> wasAddressed f \<and> nowCheck - timestamp f < failureTimeoutMs v) \<longrightarrow>
        fst (validateBeforeExecution v nowCleanup nowCheck toolName parameters) =
          Inr \<lparr>allowed = True, reason = None, requiredActions = None,
               previousFailure = None\<rparr>)"
proof (cases "generateToolKey toolName parameters")
  case (Inl e)
  then have "fst (validateBeforeExecution v nowCleanup nowCheck toolName parameters) = Inl e"
    by (simp add: validateBeforeExecution_def Let_def)
  with Inl show ?thesis by simp
next
  case (Inr key)
  note r = validate_result [OF Inr, of v nowCleanup nowCheck]
  show ?thesis
  proof (cases "map_of (recentFailures (cleanupOldFailures v nowCleanup)) key")
    case None
    then show ?thesis
      using r Inr by (simp add: allowedResult_def)
  next
    case (Some f)
    then show ?thesis
      using r Inr by (auto simp: allowedResult_def blockedReason_def roundSeconds_def)
  qed
qed

lemma validate_blocks_exactly_recent_unaddressed_example:
  "generateToolKey ''replace'' (fileParams ''x'') = Inr (fileKey ''x'') \<and>
   fst (validateBeforeExecution oneFailure 2000 2700 ''replace'' (fileParams ''x'')) =
     Inr \<lparr>allowed = False,
          reason = Some ''Previous identical tool call failed 2s ago and required actions have not been addressed.'',
          requiredActions = Some [''read file first''],
          previousFailure =
            Some \<lparr>timestamp = 1000, errorInfo = fileError ''not_found'' ''x'',
                  requiredActions = [''read file first''], wasAddressed = False\<rparr>\<rparr>"
  using validate_blocks_exactly_recent_unaddressed
    [of oneFailure 2000 2700 "''replace''" "fileParams ''x''"]
  by (simp add: fileKey_x oneFailure_eq cleanup_simps showInt_def showNat.simps)

text \<open>
  When the fingerprint exists and has a record, \<^verbatim>\<open>markFailureAddressed\<close> sets the
  record's \<^verbatim>\<open>wasAddressed\<close> in place (same position, other records untouched) and
  the next validation is allowed at any time, also within the cooldown; when the
  fingerprint exists and has no record, the call returns normally and the state is
  unchanged.
\<close>

lemma mark_addressed_lifts_block:
  assumes "generateToolKey toolName parameters = Inr key"
    and "distinct (map fst (recentFailures v))"
  shows
  "(\<forall>f. map_of (recentFailures v) key = Some f \<longrightarrow>
      fst (markFailureAddressed v toolName parameters) = Inr () \<and>
      map_of (recentFailures (snd (markFailureAddressed v toolName parameters))) key =
        Some (f\<lparr>wasAddressed := True\<rparr>) \<and>
      map fst (recentFailures (snd (markFailureAddressed v toolName parameters))) =
        map fst (recentFailures v) \<and>
      (\<forall>k. k \<noteq> key \<longrightarrow>
         map_of (recentFailures (snd (markFailureAddressed v toolName parameters))) k =
         map_of (recentFailures v) k) \<and>
      fst (validateBeforeExecution (snd (markFailureAddressed v toolName parameters))
             nowCleanup nowCheck toolName parameters) =
        Inr \<lparr>allowed = True, reason = None, requiredActions = None, previousFailure = None\<rparr>) \<and>
   (map_of (recentFailures v) key = None \<longrightarrow>
      markFailureAddressed v toolName parameters = (Inr (), v))"
proof (intro conjI allI impI)
  assume "map_of (recentFailures v) key = None"
  then show "markFailureAddressed v toolName parameters = (Inr (), v)"
    using assms(1) by (simp add: markFailureAddressed_def)
next
  fix f
  assume f: "map_of (recentFailures v) key = Some f"
  let ?v = "snd (markFailureAddressed v toolName parameters)"
  have st: "recentFailures ?v =
      AList.update key (f\<lparr>wasAddressed := True\<rparr>) (recentFailures v)"
    using assms(1) f by (simp add: markFailureAddressed_def)
  have cfg: "failureTimeoutMs ?v = failureTimeoutMs v"
    using assms(1) f by (simp add: markFailureAddressed_def)
  show "fst (markFailureAddressed v toolName parameters) = Inr ()"
    using assms(1) f by (simp add: markFailureAddressed_def)
  show look: "map_of (recentFailures ?v) key = Some (f\<lparr>wasAddressed := True\<rparr>)"
    by (simp add: st update_conv')
  have "key \<in> fst ` set (recentFailures v)"
    using f by (metis map_of_eq_None_iff option.distinct(1))
  then show keys: "map fst (recentFailures ?v) = map fst (recentFailures v)"
    by (simp add: st update_keys)
  show "map_of (recentFailures ?v) k = map_of (recentFailures v) k" if "k \<noteq> key" for k
    using that by (simp add: st update_conv')
  have d: "distinct (map fst (recentFailures ?v))"
    using assms(2) keys by simp
  have ok: "wasAddressed g"
    if "map_of (recentFailures (cleanupOldFailures ?v nowCleanup)) key = Some g" for g
  proof -
    from that have "map_of (recentFailures ?v) key = Some g"
      unfolding cleanup_simps by (rule map_of_cleanup_addressed [OF d])
    with look show ?thesis by simp
  qed
  show "fst (validateBeforeExecution ?v nowCleanup nowCheck toolName parameters) =
      Inr \<lparr>allowed = True, reason = None, requiredActions = None, previousFailure = None\<rparr>"
    using validate_result [OF assms(1), of ?v nowCleanup nowCheck] ok
    by (cases "map_of (recentFailures (cleanupOldFailures ?v nowCleanup)) key")
       (simp_all add: allowedResult_def)
qed

lemma mark_addressed_lifts_block_example:
  "distinct (map fst (recentFailures oneFailure)) \<and>
   map_of (recentFailures (snd (markFailureAddressed oneFailure ''replace'' (fileParams ''x''))))
     (fileKey ''x'') =
     Some \<lparr>timestamp = 1000, errorInfo = fileError ''not_found'' ''x'',
           requiredActions = [''read file first''], wasAddressed = True\<rparr> \<and>
   fst (validateBeforeExecution
          (snd (markFailureAddressed oneFailure ''replace'' (fileParams ''x'')))
          1000 1000 ''replace'' (fileParams ''x'')) =
     Inr \<lparr>allowed = True, reason = None, requiredActions = None, previousFailure = None\<rparr> \<and>
   map_of (recentFailures oneFailure) (fileKey ''a.txt'') = None \<and>
   markFailureAddressed oneFailure ''replace'' (fileParams ''a.txt'') = (Inr (), oneFailure)"
proof -
  have d: "distinct (map fst (recentFailures oneFailure))"
    by (simp add: oneFailure_eq)
  have n: "map_of (recentFailures oneFailure) (fileKey ''a.txt'') = None"
    by (simp add: oneFailure_eq fileKey_def)
  show ?thesis
    using d n mark_addressed_lifts_block [OF fileKey_x d, of 1000 1000]
      mark_addressed_lifts_block [OF fileKey_a d, of 1000 1000]
    by (simp add: oneFailure_eq)
qed

subsection \<open>The claims\<close>

text \<open>
  Claim C1, as amended. \<^verbatim>\<open>detectDiagnosticActions\<close> sets \<^verbatim>\<open>wasAddressed\<close> on a
  stored record exactly when the trace holds a successful \<^verbatim>\<open>read_file\<close> call with a
  truthy \<^verbatim>\<open>file_path\<close> such that the record's key starts with \<^verbatim>\<open>replace:\<close>, its
  \<^verbatim>\<open>context?.filePath\<close> is strictly equal to that path and its code is
  \<^verbatim>\<open>EDIT_TEXT_NOT_FOUND\<close> or \<^verbatim>\<open>EDIT_MULTIPLE_MATCHES\<close>; every other record stays as
  it is, and the other diagnostic tools mark nothing.
\<close>

theorem read_file_addresses_edit_failures:
  "recentFailures (detectDiagnosticActions v calls) =
     map (\<lambda>(key, f).
            if \<exists>call \<in> set calls.
                 name call = ''read_file'' \<and> success call \<and>
                 truthy (getProperty (params call) ''file_path'') \<and>
                 startsWith key ''replace:'' \<and>
                 strictEquals (contextFilePath f) (getProperty (params call) ''file_path'') \<and>
                 (code (errorInfo f) = ''EDIT_TEXT_NOT_FOUND'' \<or>
                  code (errorInfo f) = ''EDIT_MULTIPLE_MATCHES'')
            then (key, f\<lparr>wasAddressed := True\<rparr>) else (key, f))
       (recentFailures v)"
proof -
  have unfolded: "addressedBy call key f \<longleftrightarrow>
      name call = ''read_file'' \<and> success call \<and>
      truthy (getProperty (params call) ''file_path'') \<and>
      startsWith key ''replace:'' \<and>
      strictEquals (contextFilePath f) (getProperty (params call) ''file_path'') \<and>
      (code (errorInfo f) = ''EDIT_TEXT_NOT_FOUND'' \<or>
       code (errorInfo f) = ''EDIT_MULTIPLE_MATCHES'')" for call key f
    by (simp add: addressedBy_def relatedFailure_def)
  have "recentFailures (detectDiagnosticActions v calls) =
     map (\<lambda>(key, f).
            if \<exists>call \<in> set calls. addressedBy call key f
            then (key, f\<lparr>wasAddressed := True\<rparr>) else (key, f))
       (recentFailures v)"
    by (rule detect_store)
  then show ?thesis
    by (simp only: unfolded)
qed

theorem read_file_addresses_edit_failures_witness:
  "recentFailures (detectDiagnosticActions (twoFailures ''EDIT_TEXT_NOT_FOUND'')
      [readFileCall ''a.txt'']) =
     [(fileKey ''a.txt'',
       \<lparr>timestamp = 1000, errorInfo = fileError ''EDIT_TEXT_NOT_FOUND'' ''a.txt'',
        requiredActions = [''read file first''], wasAddressed = True\<rparr>),
      (fileKey ''b.txt'',
       \<lparr>timestamp = 1000, errorInfo = fileError ''EDIT_TEXT_NOT_FOUND'' ''b.txt'',
        requiredActions = [''read file first''], wasAddressed = False\<rparr>)]"
  using read_file_addresses_edit_failures
    [of "twoFailures ''EDIT_TEXT_NOT_FOUND''" "[readFileCall ''a.txt'']"]
  by (simp add: twoFailures_eq readFileCall_def startsWith_def fileKey_def
      contextFilePath_def fileError_def del: detectDiagnosticActions.simps)

text \<open>
  Claim C1, as stated, fails: with the code \<^verbatim>\<open>not_found\<close> of the claim, the record
  of \<^verbatim>\<open>a.txt\<close> is still unaddressed after a successful \<^verbatim>\<open>read_file\<close> of
  \<^verbatim>\<open>a.txt\<close>.
\<close>

theorem read_file_not_found_counterexample:
  "map (code \<circ> errorInfo \<circ> snd) (recentFailures (twoFailures ''not_found'')) =
     [''not_found'', ''not_found''] \<and>
   map (contextFilePath \<circ> snd) (recentFailures (twoFailures ''not_found'')) =
     [JStr ''a.txt'', JStr ''b.txt''] \<and>
   map fst (recentFailures (twoFailures ''not_found'')) =
     [fileKey ''a.txt'', fileKey ''b.txt''] \<and>
   map (wasAddressed \<circ> snd)
     (recentFailures (detectDiagnosticActions (twoFailures ''not_found'')
        [readFileCall ''a.txt''])) = [False, False]"
  by (simp add: twoFailures_eq detect_store addressedBy_def relatedFailure_def
      contextFilePath_def fileError_def readFileCall_def del: detectDiagnosticActions.simps)

text \<open>
  Claim C2. Two parameter structures with the same key/value pairs at every nesting
  depth, whatever the order of the properties of their objects, have the same
  fingerprint under every tool name. In particular the fingerprints of
  \<^verbatim>\<open>("replace", {a:1,b:2})\<close> and \<^verbatim>\<open>("replace", {b:2,a:1})\<close> are equal, and those
  of \<^verbatim>\<open>("replace", {a:1})\<close> and \<^verbatim>\<open>("write", {a:1})\<close> differ.
\<close>

theorem fingerprint_property_order:
  "(sameProperties p q \<longrightarrow> generateToolKey toolName p = generateToolKey toolName q) \<and>
   generateToolKey ''replace'' (JObj [(''a'', JNum 1), (''b'', JNum 2)]) =
     generateToolKey ''replace'' (JObj [(''b'', JNum 2), (''a'', JNum 1)]) \<and>
   generateToolKey ''replace'' (JObj [(''a'', JNum 1)]) \<noteq>
     generateToolKey ''write'' (JObj [(''a'', JNum 1)])"
proof (intro conjI impI)
  assume "sameProperties p q"
  then show "generateToolKey toolName p = generateToolKey toolName q"
    by (rule sameProperties_generateToolKey)
next
  show "generateToolKey ''replace'' (JObj [(''a'', JNum 1), (''b'', JNum 2)]) =
     generateToolKey ''replace'' (JObj [(''b'', JNum 2), (''a'', JNum 1)])"
    by (simp add: key_eval)
next
  show "generateToolKey ''replace'' (JObj [(''a'', JNum 1)]) \<noteq>
     generateToolKey ''write'' (JObj [(''a'', JNum 1)])"
    by (simp add: key_eval)
qed

theorem fingerprint_property_order_witness:
  "sameProperties
     (JObj [(''a'', JObj [(''b'', JNum 1), (''a'', JArr [JNum 2])]), (''b'', JNum 3)])
     (JObj [(''b'', JNum 3), (''a'', JObj [(''a'', JArr [JNum 2]), (''b'', JNum 1)])]) \<and>
   generateToolKey ''replace''
     (JObj [(''a'', JObj [(''b'', JNum 1), (''a'', JArr [JNum 2])]), (''b'', JNum 3)]) =
   generateToolKey ''replace''
     (JObj [(''b'', JNum 3), (''a'', JObj [(''a'', JArr [JNum 2]), (''b'', JNum 1)])])"
proof -
  have inner: "sameProperties (JObj [(''b'', JNum 1), (''a'', JArr [JNum 2])])
                 (JObj [(''a'', JArr [JNum 2]), (''b'', JNum 1)])"
    by (rule same_object) (auto intro: same_value)
  have outer: "sameProperties
     (JObj [(''a'', JObj [(''b'', JNum 1), (''a'', JArr [JNum 2])]), (''b'', JNum 3)])
     (JObj [(''b'', JNum 3), (''a'', JObj [(''a'', JArr [JNum 2]), (''b'', JNum 1)])])"
    by (rule same_object) (auto intro: same_value inner)
  show ?thesis
    using outer fingerprint_property_order
      [of "JObj [(''a'', JObj [(''b'', JNum 1), (''a'', JArr [JNum 2])]), (''b'', JNum 3)]"
          "JObj [(''b'', JNum 3), (''a'', JObj [(''a'', JArr [JNum 2]), (''b'', JNum 1)])]"
          "''replace''"]
    by blast
qed

text \<open>
  Claim C3. The claim asks that the fingerprint and the four guard operations that
  compute it complete without raising when the parameters are absent. On
  \<^verbatim>\<open>undefined\<close> and on \<^verbatim>\<open>null\<close> the call \<^verbatim>\<open>Object.keys(params as object)\<close>
  throws a \<^verbatim>\<open>TypeError\<close>, and each of the four operations throws with it.
\<close>

theorem absent_parameters_raise:
  "generateToolKey toolName JUndefined = Inl TypeError \<and>
   generateToolKey toolName JNull = Inl TypeError \<and>
   fst (validateBeforeExecution v now1 now2 toolName JUndefined) = Inl TypeError \<and>
   fst (recordFailure v now toolName JUndefined info) = Inl TypeError \<and>
   fst (recordSuccess v toolName JUndefined) = Inl TypeError \<and>
   fst (markFailureAddressed v toolName JUndefined) = Inl TypeError"
  by (simp add: generateToolKey_def validateBeforeExecution_def recordFailure_def
      recordSuccess_def markFailureAddressed_def)

text \<open>
  Claim C4. The claim asks, for every tool name and parameters, that
  \<^verbatim>\<open>validateBeforeExecution\<close> returns \<^verbatim>\<open>allowed = false\<close> exactly for a recent
  unaddressed record of the fingerprint and \<^verbatim>\<open>allowed = true\<close> in every other case.
  For the parameters \<^verbatim>\<open>undefined\<close> and \<^verbatim>\<open>null\<close> there is no record to block on,
  yet the call does not return \<^verbatim>\<open>allowed = true\<close>: once the cleanup is done,
  \<^verbatim>\<open>Object.keys(params as object)\<close> throws a \<^verbatim>\<open>TypeError\<close>.
\<close>

theorem validate_absent_parameters_raise:
  "validateBeforeExecution v nowCleanup nowCheck toolName JUndefined =
     (Inl TypeError, cleanupOldFailures v nowCleanup) \<and>
   validateBeforeExecution v nowCleanup nowCheck toolName JNull =
     (Inl TypeError, cleanupOldFailures v nowCleanup) \<and>
   recentFailures defaultValidator = [] \<and>
   fst (validateBeforeExecution defaultValidator nowCleanup nowCheck toolName JUndefined) \<noteq>
     Inr \<lparr>allowed = True, reason = None, requiredActions = None, previousFailure = None\<rparr>"
proof -
  have "generateToolKey toolName JUndefined = Inl TypeError"
    and "generateToolKey toolName JNull = Inl TypeError"
    by (simp_all add: generateToolKey_def)
  then show ?thesis
    by (simp add: validateBeforeExecution_def Let_def defaultValidator_def newValidator_def)
qed

text \<open>
  Claim C5. An unaddressed record at least \<^verbatim>\<open>failureTimeoutMs\<close> old when the
  cooldown is tested, and not older than \<^verbatim>\<open>maxFailureAge\<close> when the cleanup runs,
  does not block: the validation returns \<^verbatim>\<open>allowed = true\<close> and the record is still
  stored, unchanged and unaddressed.
\<close>

theorem cooldown_expiry_keeps_record:
  assumes "generateToolKey toolName parameters = Inr key"
    and "map_of (recentFailures v) key = Some f"
    and "\<not> wasAddressed f"
    and "failureTimeoutMs v \<le> nowCheck - timestamp f"
    and "nowCleanup - timestamp f \<le> maxFailureAge v"
  shows
  "fst (validateBeforeExecution v nowCleanup nowCheck toolName parameters) =
     Inr \<lparr>allowed = True, reason = None, requiredActions = None, previousFailure = None\<rparr> \<and>
   map_of (recentFailures (snd (validateBeforeExecution v nowCleanup nowCheck toolName parameters)))
     key = Some f \<and>
   \<not> wasAddressed f"
proof -
  have keep: "map_of (recentFailures (cleanupOldFailures v nowCleanup)) key = Some f"
    unfolding cleanup_simps
    by (rule map_of_filter_in) (use assms in auto)
  show ?thesis
    using assms keep validate_result [OF assms(1), of v nowCleanup nowCheck]
    by (simp add: validate_state allowedResult_def)
qed

theorem cooldown_expiry_keeps_record_witness:
  "fst (validateBeforeExecution oneFailure 31000 31000 ''replace'' (fileParams ''x'')) =
     Inr \<lparr>allowed = True, reason = None, requiredActions = None, previousFailure = None\<rparr> \<and>
   map_of (recentFailures
       (snd (validateBeforeExecution oneFailure 31000 31000 ''replace'' (fileParams ''x''))))
     (fileKey ''x'') =
     Some \<lparr>timestamp = 1000, errorInfo = fileError ''not_found'' ''x'',
           requiredActions = [''read file first''], wasAddressed = False\<rparr>"
  using cooldown_expiry_keeps_record
    [OF fileKey_x, of oneFailure
       "\<lparr>timestamp = 1000, errorInfo = fileError ''not_found'' ''x'',
         requiredActions = [''read file first''], wasAddressed = False\<rparr>" 31000 31000]
  by (simp add: oneFailure_eq)

text \<open>
  Claim C6. \<^verbatim>\<open>recordSuccess\<close> deletes the record of the fingerprint and leaves the
  records of all other fingerprints alone; the next validation of the same tool name
  and parameters is allowed, at whatever time it is made.
\<close>

theorem success_clears_failure:
  assumes "generateToolKey toolName parameters = Inr key"
  shows
  "fst (recordSuccess v toolName parameters) = Inr () \<and>
   map_of (recentFailures (snd (recordSuccess v toolName parameters))) key = None \<and>
   (\<forall>k. k \<noteq> key \<longrightarrow>
      map_of (recentFailures (snd (recordSuccess v toolName parameters))) k =
      map_of (recentFailures v) k) \<and>
   fst (validateBeforeExecution (snd (recordSuccess v toolName parameters))
          nowCleanup nowCheck toolName parameters) =
     Inr \<lparr>allowed = True, reason = None, requiredActions = None, previousFailure = None\<rparr>"
proof -
  let ?v = "snd (recordSuccess v toolName parameters)"
  have st: "recentFailures ?v = AList.delete key (recentFailures v)"
    using assms by (simp add: recordSuccess_def)
  have gone: "map_of (recentFailures ?v) key = None"
    by (simp add: st delete_conv)
  have "key \<notin> fst ` set (recentFailures ?v)"
    using gone by (simp add: map_of_eq_None_iff)
  then have "key \<notin> fst ` set (recentFailures (cleanupOldFailures ?v nowCleanup))"
    by (auto simp: cleanup_simps)
  then have "map_of (recentFailures (cleanupOldFailures ?v nowCleanup)) key = None"
    by (simp add: map_of_eq_None_iff)
  then have "fst (validateBeforeExecution ?v nowCleanup nowCheck toolName parameters) =
     Inr allowedResult"
    using validate_result [OF assms, of ?v nowCleanup nowCheck] by simp
  then show ?thesis
    using assms gone by (simp add: st recordSuccess_def allowedResult_def)
qed

theorem success_clears_failure_witness:
  "map_of (recentFailures oneFailure) (fileKey ''x'') \<noteq> None \<and>
   map_of (recentFailures (snd (recordSuccess oneFailure ''replace'' (fileParams ''x''))))
     (fileKey ''x'') = None \<and>
   fst (validateBeforeExecution (snd (recordSuccess oneFailure ''replace'' (fileParams ''x'')))
          1000 1000 ''replace'' (fileParams ''x'')) =
     Inr \<lparr>allowed = True, reason = None, requiredActions = None, previousFailure = None\<rparr>"
  using success_clears_failure [OF fileKey_x, of oneFailure 1000 1000]
  by (simp add: oneFailure_eq)

text \<open>
  Claim C7. The claim asks, for every tool name and parameters, that
  \<^verbatim>\<open>markFailureAddressed\<close> sets \<^verbatim>\<open>wasAddressed\<close> on the record of the fingerprint
  and, when there is no record, is a no-op that does not raise. For the parameters
  \<^verbatim>\<open>undefined\<close> and \<^verbatim>\<open>null\<close> there is no record, also in an empty store, and the
  state is indeed left as it was, but the call raises: \<^verbatim>\<open>Object.keys(params as object)\<close>
  throws a \<^verbatim>\<open>TypeError\<close> before the store is read.
\<close>

theorem mark_absent_parameters_raise:
  "markFailureAddressed v toolName JUndefined = (Inl TypeError, v) \<and>
   markFailureAddressed v toolName JNull = (Inl TypeError, v) \<and>
   recentFailures defaultValidator = [] \<and>
   fst (markFailureAddressed defaultValidator toolName JUndefined) \<noteq> Inr ()"
proof -
  have "generateToolKey toolName JUndefined = Inl TypeError"
    and "generateToolKey toolName JNull = Inl TypeError"
    by (simp_all add: generateToolKey_def)
  then show ?thesis
    by (simp add: markFailureAddressed_def defaultValidator_def newValidator_def)
qed

text \<open>
  Claim C8. A record older than \<^verbatim>\<open>maxFailureAge\<close> at the reading of the cleanup is
  gone from the store after \<^verbatim>\<open>validateBeforeExecution\<close> and after
  \<^verbatim>\<open>getFailureStats\<close>, whatever its \<^verbatim>\<open>wasAddressed\<close>; \<^verbatim>\<open>totalFailures\<close> counts
  exactly the records that are not that old.
\<close>

theorem old_records_purged:
  assumes "(key, f) \<in> set (recentFailures v)"
    and "now - timestamp f > maxFailureAge v"
  shows
  "(key, f) \<notin> set (recentFailures
       (snd (validateBeforeExecution v now nowCheck toolName parameters))) \<and>
   (key, f) \<notin> set (recentFailures (snd (getFailureStats v now nowFilter))) \<and>
   (distinct (map fst (recentFailures v)) \<longrightarrow>
      map_of (recentFailures (snd (validateBeforeExecution v now nowCheck toolName parameters)))
        key = None \<and>
      map_of (recentFailures (snd (getFailureStats v now nowFilter))) key = None) \<and>
   totalFailures (fst (getFailureStats v now nowFilter)) =
     length (filter (\<lambda>(k, g). now - timestamp g \<le> maxFailureAge v) (recentFailures v)) \<and>
   totalFailures (fst (getFailureStats v now nowFilter)) < length (recentFailures v)"
proof -
  let ?keep = "\<lambda>(k, g). \<not> (now - timestamp g > maxFailureAge v)"
  have out: "(key, f) \<notin> set (filter ?keep (recentFailures v))"
    using assms(2) by simp
  have none: "map_of (filter ?keep (recentFailures v)) key = None"
    if d: "distinct (map fst (recentFailures v))"
  proof (rule ccontr)
    assume "map_of (filter ?keep (recentFailures v)) key \<noteq> None"
    then obtain g where g: "map_of (filter ?keep (recentFailures v)) key = Some g"
      by blast
    then have "map_of (recentFailures v) key = Some g"
      by (rule map_of_cleanup_addressed [OF d])
    moreover have "map_of (recentFailures v) key = Some f"
      using d assms(1) by simp
    ultimately have "g = f" by simp
    with g have "(key, f) \<in> set (filter ?keep (recentFailures v))"
      by (auto dest: map_of_SomeD)
    with out show False by simp
  qed
  have same: "filter ?keep (recentFailures v) =
      filter (\<lambda>(k, g). now - timestamp g \<le> maxFailureAge v) (recentFailures v)"
    by (rule filter_cong) auto
  have less: "length (filter ?keep (recentFailures v)) < length (recentFailures v)"
    by (rule length_filter_less [OF assms(1)]) (use assms(2) in simp)
  show ?thesis
    using out none less
    by (simp add: validate_state getFailureStats_state getFailureStats_total cleanup_simps
        same [symmetric])
qed

theorem old_records_purged_witness:
  "(fileKey ''x'',
    \<lparr>timestamp = 1000, errorInfo = fileError ''not_found'' ''x'',
     requiredActions = [''read file first''], wasAddressed = False\<rparr>)
     \<in> set (recentFailures oneFailure) \<and>
   301001 - 1000 > maxFailureAge oneFailure \<and>
   recentFailures (snd (validateBeforeExecution oneFailure 301001 301001 ''replace''
      (fileParams ''x''))) = [] \<and>
   recentFailures (snd (getFailureStats oneFailure 301001 (\<lambda>i. 301001))) = [] \<and>
   totalFailures (fst (getFailureStats oneFailure 301001 (\<lambda>i. 301001))) = 0"
proof -
  have m: "(fileKey ''x'',
    \<lparr>timestamp = 1000, errorInfo = fileError ''not_found'' ''x'',
     requiredActions = [''read file first''], wasAddressed = False\<rparr>)
     \<in> set (recentFailures oneFailure)"
    by (simp add: oneFailure_eq)
  have a: "maxFailureAge oneFailure
      < 301001 - timestamp \<lparr>timestamp = 1000, errorInfo = fileError ''not_found'' ''x'',
          requiredActions = [''read file first''], wasAddressed = False\<rparr>"
    by (simp add: oneFailure_eq)
  show ?thesis
    using m old_records_purged [OF m a, of 301001 "''replace''" "fileParams ''x''" "\<lambda>i. 301001"]
    by (simp add: oneFailure_eq validate_state getFailureStats_state cleanup_simps)
qed

text \<open>
  Claim C9. \<^verbatim>\<open>detectDiagnosticActions\<close> keeps the records of the store, key by key
  and in order: none is deleted, none is created, timestamp, error information and
  required actions are unchanged, an addressed record stays addressed, and the
  configuration is unchanged. A record differs from its former value at most by
  \<^verbatim>\<open>wasAddressed\<close> having become true.
\<close>

theorem detect_only_relaxes:
  "list_all2
     (\<lambda>(key, f) (key', f').
        key' = key \<and> timestamp f' = timestamp f \<and> errorInfo f' = errorInfo f \<and>
        FailureInfo.requiredActions f' = FailureInfo.requiredActions f \<and>
        (wasAddressed f \<longrightarrow> wasAddressed f') \<and>
        (f' = f \<or> f' = f\<lparr>wasAddressed := True\<rparr>))
     (recentFailures v) (recentFailures (detectDiagnosticActions v calls)) \<and>
   failureTimeoutMs (detectDiagnosticActions v calls) = failureTimeoutMs v \<and>
   maxFailureAge (detectDiagnosticActions v calls) = maxFailureAge v"
proof -
  have "list_all2
     (\<lambda>(key, f) (key', f').
        key' = key \<and> timestamp f' = timestamp f \<and> errorInfo f' = errorInfo f \<and>
        FailureInfo.requiredActions f' = FailureInfo.requiredActions f \<and>
        (wasAddressed f \<longrightarrow> wasAddressed f') \<and>
        (f' = f \<or> f' = f\<lparr>wasAddressed := True\<rparr>))
     xs (map (\<lambda>(key, f).
            if \<exists>call \<in> set calls. addressedBy call key f
            then (key, f\<lparr>wasAddressed := True\<rparr>) else (key, f)) xs)" for xs
    by (induction xs) (auto split: if_splits)
  then show ?thesis
    by (simp add: detect_store detect_config)
qed

theorem detect_only_relaxes_witness:
  "map (wasAddressed \<circ> snd)
     (recentFailures (snd (markFailureAddressed (twoFailures ''EDIT_TEXT_NOT_FOUND'')
        ''replace'' (fileParams ''b.txt'')))) = [False, True] \<and>
   map (wasAddressed \<circ> snd)
     (recentFailures (detectDiagnosticActions
        (snd (markFailureAddressed (twoFailures ''EDIT_TEXT_NOT_FOUND'')
           ''replace'' (fileParams ''b.txt'')))
        [readFileCall ''a.txt''])) = [True, True] \<and>
   map fst (recentFailures (detectDiagnosticActions
        (snd (markFailureAddressed (twoFailures ''EDIT_TEXT_NOT_FOUND'')
           ''replace'' (fileParams ''b.txt'')))
        [readFileCall ''a.txt''])) = [fileKey ''a.txt'', fileKey ''b.txt'']"
proof -
  let ?v = "snd (markFailureAddressed (twoFailures ''EDIT_TEXT_NOT_FOUND'')
        ''replace'' (fileParams ''b.txt''))"
  have v: "recentFailures ?v =
        [(fileKey ''a.txt'',
          \<lparr>timestamp = 1000, errorInfo = fileError ''EDIT_TEXT_NOT_FOUND'' ''a.txt'',
           requiredActions = [''read file first''], wasAddressed = False\<rparr>),
         (fileKey ''b.txt'',
          \<lparr>timestamp = 1000, errorInfo = fileError ''EDIT_TEXT_NOT_FOUND'' ''b.txt'',
           requiredActions = [''read file first''], wasAddressed = True\<rparr>)]"
    by (simp add: markFailureAddressed_def fileKey_b twoFailures_eq fileKey_def)
  have a: "addressedBy (readFileCall ''a.txt'') (fileKey ''a.txt'')
     \<lparr>timestamp = 1000, errorInfo = fileError ''EDIT_TEXT_NOT_FOUND'' ''a.txt'',
      requiredActions = [''read file first''], wasAddressed = False\<rparr>"
    by (simp add: addressedBy_def readFileCall_def relatedFailure_def startsWith_def
        fileKey_def contextFilePath_def fileError_def)
  show ?thesis
    using detect_only_relaxes [of ?v "[readFileCall ''a.txt'']"] a
    by (simp add: v detect_store fileKey_def del: detectDiagnosticActions.simps)
qed

text \<open>
  Claim C10. The fingerprints of \<^verbatim>\<open>("t", {a:{x:1}})\<close> and \<^verbatim>\<open>("t", {a:{y:2}})\<close> are
  equal: the nested names \<^verbatim>\<open>x\<close> and \<^verbatim>\<open>y\<close> are not among the top-level names, so
  both nested objects are written as \<^verbatim>\<open>{}\<close>. A failure recorded for the first
  invocation therefore blocks the second while the cooldown lasts.
\<close>

theorem nested_values_collide:
  "generateToolKey ''t'' (JObj [(''a'', JObj [(''x'', JNum 1)])]) =
   generateToolKey ''t'' (JObj [(''a'', JObj [(''y'', JNum 2)])]) \<and>
   (nowCleanup - t0 \<le> maxFailureAge v \<and> nowCheck - t0 < failureTimeoutMs v \<longrightarrow>
      (\<exists>res. fst (validateBeforeExecution
                (snd (recordFailure v t0 ''t'' (JObj [(''a'', JObj [(''x'', JNum 1)])]) info))
                nowCleanup nowCheck ''t'' (JObj [(''a'', JObj [(''y'', JNum 2)])])) = Inr res \<and>
             \<not> allowed res \<and>
             previousFailure res =
               Some \<lparr>timestamp = t0, errorInfo = info,
                     requiredActions = ToolErrorInfo.requiredActions info,
                     wasAddressed = False\<rparr>))"
proof (intro conjI impI)
  show "generateToolKey ''t'' (JObj [(''a'', JObj [(''x'', JNum 1)])]) =
        generateToolKey ''t'' (JObj [(''a'', JObj [(''y'', JNum 2)])])"
    by (simp add: key_eval)
next
  assume t: "nowCleanup - t0 \<le> maxFailureAge v \<and> nowCheck - t0 < failureTimeoutMs v"
  let ?k = "''t:{'' @ [dquote] @ ''a'' @ [dquote] @ '':{}}''"
  let ?f = "\<lparr>timestamp = t0, errorInfo = info,
             requiredActions = ToolErrorInfo.requiredActions info, wasAddressed = False\<rparr>"
  let ?v = "snd (recordFailure v t0 ''t'' (JObj [(''a'', JObj [(''x'', JNum 1)])]) info)"
  have k1: "generateToolKey ''t'' (JObj [(''a'', JObj [(''x'', JNum 1)])]) = Inr ?k"
    by (simp add: key_eval)
  have k2: "generateToolKey ''t'' (JObj [(''a'', JObj [(''y'', JNum 2)])]) = Inr ?k"
    by (simp add: key_eval)
  have st: "recentFailures ?v = AList.update ?k ?f (recentFailures v)"
    and cfg: "failureTimeoutMs ?v = failureTimeoutMs v" "maxFailureAge ?v = maxFailureAge v"
    by (simp_all add: recordFailure_def k1)
  have "map_of (recentFailures ?v) ?k = Some ?f"
    by (simp only: st update_conv') simp
  then have "map_of (recentFailures (cleanupOldFailures ?v nowCleanup)) ?k = Some ?f"
    unfolding cleanup_simps
    by (rule map_of_filter_in) (use t cfg in simp)
  then show "\<exists>res. fst (validateBeforeExecution ?v nowCleanup nowCheck ''t''
                (JObj [(''a'', JObj [(''y'', JNum 2)])])) = Inr res \<and>
             \<not> allowed res \<and> previousFailure res = Some ?f"
    using validate_result [OF k2, of ?v nowCleanup nowCheck] t cfg by simp
qed

theorem nested_values_collide_witness:
  "(0::int) - 0 \<le> maxFailureAge defaultValidator \<and>
   (1000::int) - 0 < failureTimeoutMs defaultValidator \<and>
   (\<exists>res. fst (validateBeforeExecution
               (snd (recordFailure defaultValidator 0 ''t''
                       (JObj [(''a'', JObj [(''x'', JNum 1)])]) (fileError ''not_found'' ''x'')))
               0 1000 ''t'' (JObj [(''a'', JObj [(''y'', JNum 2)])])) = Inr res \<and>
          \<not> allowed res)"
proof -
  have h: "(0::int) - 0 \<le> maxFailureAge defaultValidator \<and>
           (1000::int) - 0 < failureTimeoutMs defaultValidator"
    by (simp add: defaultValidator_def newValidator_def)
  show ?thesis
    using h nested_values_collide
      [of 0 0 defaultValidator 1000 "fileError ''not_found'' ''x''"] by blast
qed

end
